theory Spec2Isabelle
  imports Main "HOL-Library.Multiset"
begin

section \<open>The polls application: data model\<close>

text \<open>
  The models of \<^verbatim>\<open>mysite/polls/models.py\<close>. A \<^verbatim>\<open>datetime\<close> is an instant, counted in
  microseconds (the resolution of Python's \<^verbatim>\<open>datetime\<close>) from the epoch; a
  \<^verbatim>\<open>timedelta\<close> is a signed number of microseconds. Comparison of two aware datetimes
  and the subtraction of a timedelta are then comparison and subtraction of integers.
  The range of Python's datetimes (years 1 to 9999) is not modelled: \<^verbatim>\<open>timezone.now()\<close>
  reads the system clock, whose readings are more than a day after the first datetime.

  A Python \<^verbatim>\<open>str\<close> is a sequence of code points, and \<^verbatim>\<open>max_length\<close> counts code points,
  so a string is a list of code points here, not a list of bytes.
\<close>

type_synonym datetime = int
type_synonym timedelta = int
type_synonym codepoint = nat
type_synonym str = "codepoint list"

definition str_of :: "string \<Rightarrow> str" where
  "str_of s = map of_char s"

text \<open>
  \<^verbatim>\<open>datetime.timedelta(days=.., hours=.., minutes=.., seconds=..)\<close>, with the keyword
  arguments the repository uses.
\<close>

definition timedelta :: "int \<Rightarrow> int \<Rightarrow> int \<Rightarrow> int \<Rightarrow> timedelta" where
  "timedelta days hours minutes seconds =
     (((days * 24 + hours) * 60 + minutes) * 60 + seconds) * 1000000"

text \<open>
  \<^verbatim>\<open>class Question(models.Model)\<close>: the two declared fields and the primary key \<^verbatim>\<open>id\<close> that
  Django adds to every model (the tests read \<^verbatim>\<open>future_question.id\<close>).
\<close>

record Question =
  question_pk :: nat
  question_text :: str
  pub_date :: datetime

text \<open>
  \<^verbatim>\<open>class Choice(models.Model)\<close>: \<open>question\<close> is the foreign key, the primary key of the
  owning Question; \<open>votes\<close> is an \<^verbatim>\<open>IntegerField\<close>, a signed integer.
\<close>

record Choice =
  choice_pk :: nat
  question :: nat
  choice_text :: str
  votes :: int

text \<open>The declared options of the fields: \<^verbatim>\<open>max_length=200\<close> (twice) and \<^verbatim>\<open>default=0\<close>.\<close>

definition question_text_max_length :: nat where
  "question_text_max_length = 200"

definition choice_text_max_length :: nat where
  "choice_text_max_length = 200"

definition votes_default :: int where
  "votes_default = 0"

section \<open>The publication-window predicate\<close>

text \<open>
  \<^verbatim>\<open>Question.was_published_in_day\<close>, with the reading of the clock as a parameter:
  \<^verbatim>\<open>
  def was_published_in_day(self):
      now = timezone.now()
      one_day = datetime.timedelta(days=1)
      return now - one_day <= self.pub_date <= now
  \<close>
  The chained comparison is the conjunction of the two comparisons.
\<close>

definition was_published_in_day :: "datetime \<Rightarrow> Question \<Rightarrow> bool" where
  "was_published_in_day now self =
     (let one_day = timedelta 1 0 0 0
      in now - one_day \<le> pub_date self \<and> pub_date self \<le> now)"

text \<open>
  The call of the method as a step on the state it can reach: the receiver and the world
  (the clock that \<^verbatim>\<open>timezone.now()\<close> reads, and the stored records). The body assigns to
  no attribute and calls nothing that writes, so the step returns both as it found them.
\<close>

record store =
  questions :: "Question list"
  choices :: "Choice list"
  next_question_pk :: nat
  next_choice_pk :: nat

record world =
  clock :: datetime
  tables :: store

definition timezone_now :: "world \<Rightarrow> datetime \<times> world" where
  "timezone_now w = (clock w, w)"

definition was_published_in_day_call :: "Question \<Rightarrow> world \<Rightarrow> bool \<times> Question \<times> world" where
  "was_published_in_day_call self w =
     (let (now, w1) = timezone_now w;
          one_day = timedelta 1 0 0 0
      in (now - one_day \<le> pub_date self \<and> pub_date self \<le> now, self, w1))"

section \<open>The persistence layer\<close>

text \<open>
  The errors: \<open>NotFound\<close> is what a lookup signals for a record that is not there (the
  presentation layer turns it into a 404); \<open>IntegrityError\<close> is the rejection, by the
  persistence layer, of a reference to a Question that is not stored; \<open>OverflowError\<close> is
  Python's, for a date out of the range of \<^verbatim>\<open>datetime\<close> and for an integer that does not fit
  the integer column of the database.
\<close>

datatype error = NotFound | IntegrityError | OverflowError

text \<open>
  The first and the last \<^verbatim>\<open>datetime\<close> (\<^verbatim>\<open>0001-01-01 00:00:00\<close> and
  \<^verbatim>\<open>9999-12-31 23:59:59.999999\<close>, in microseconds from the epoch), the largest number of days
  of a \<^verbatim>\<open>timedelta\<close>, and the range of a 64-bit integer column.
\<close>

definition datetime_min :: datetime where
  "datetime_min = - 62135596800000000"

definition datetime_max :: datetime where
  "datetime_max = 253402300799999999"

definition timedelta_max_days :: int where
  "timedelta_max_days = 999999999"

definition integer_column_ok :: "int \<Rightarrow> bool" where
  "integer_column_ok n \<longleftrightarrow> - (2 ^ 63) \<le> n \<and> n < 2 ^ 63"

text \<open>
  Modelled from the spec: the store of the persistence collaborator (section 6 of the
  spec), which is Django's and is not part of the source files. A table is the list of
  its rows in insertion order; primary keys are handed out by a counter.
\<close>

definition empty_store :: store where
  "empty_store = \<lparr>questions = [], choices = [], next_question_pk = 1, next_choice_pk = 1\<rparr>"

definition question_pks :: "store \<Rightarrow> nat list" where
  "question_pks s = map question_pk (questions s)"

definition choice_pks :: "store \<Rightarrow> nat list" where
  "choice_pks s = map choice_pk (choices s)"

text \<open>
  Modelled from the spec: \<^verbatim>\<open>Question.objects.create\<close>, the creation of a Question (section 3:
  any timestamp is valid at creation). The text is stored as it is supplied: the creation
  runs no validation, so the declared \<^verbatim>\<open>max_length\<close> is not checked here.
\<close>

definition create_Question :: "str \<Rightarrow> datetime \<Rightarrow> store \<Rightarrow> error + Question \<times> store" where
  "create_Question text time s =
     (let q = \<lparr>question_pk = next_question_pk s, question_text = text, pub_date = time\<rparr>
      in Inr (q, s\<lparr>questions := questions s @ [q],
                   next_question_pk := Suc (next_question_pk s)\<rparr>))"

text \<open>
  \<^verbatim>\<open>create_question(question_text, days)\<close> of \<^verbatim>\<open>tests.py\<close>:
  \<^verbatim>\<open>
  time = timezone.now() + datetime.timedelta(days=days)
  return Question.objects.create(question_text=question_text, pub_date=time)
  \<close>
  \<^verbatim>\<open>timedelta(days=days)\<close> raises \<^verbatim>\<open>OverflowError\<close> for more than 999999999 days either way,
  and so does the addition when the sum is not a \<^verbatim>\<open>datetime\<close>.
\<close>

definition create_question :: "datetime \<Rightarrow> str \<Rightarrow> int \<Rightarrow> store \<Rightarrow> error + Question \<times> store" where
  "create_question now text days s =
     (if days < - timedelta_max_days \<or> timedelta_max_days < days then Inl OverflowError
      else let time = now + timedelta days 0 0 0
           in if time < datetime_min \<or> datetime_max < time then Inl OverflowError
              else create_Question text time s)"

text \<open>
  Modelled from the spec: the update of a stored Question by assignment to its fields
  (section 3: mutated only by direct field assignment). The primary key stays; the text is
  stored as it is supplied.
\<close>

definition update_Question :: "nat \<Rightarrow> str \<Rightarrow> datetime \<Rightarrow> store \<Rightarrow> error + store" where
  "update_Question pk text time s =
     (if pk \<notin> set (question_pks s) then Inl NotFound
      else Inr (s\<lparr>questions :=
                  map (\<lambda>q. if question_pk q = pk
                           then q\<lparr>question_text := text, pub_date := time\<rparr> else q)
                      (questions s)\<rparr>))"

text \<open>
  Modelled from the spec: the deletion of a Question, which follows the declared
  \<^verbatim>\<open>on_delete=models.CASCADE\<close> of \<^verbatim>\<open>Choice.question\<close> (sections 3 and 9: delete the
  Question, enumerate and delete its Choices).
\<close>

definition delete_Question :: "nat \<Rightarrow> store \<Rightarrow> error + store" where
  "delete_Question pk s =
     (if pk \<notin> set (question_pks s) then Inl NotFound
      else Inr (s\<lparr>questions := filter (\<lambda>q. question_pk q \<noteq> pk) (questions s),
                  choices := filter (\<lambda>c. question c \<noteq> pk) (choices s)\<rparr>))"

text \<open>
  The instance that the class declaration of \<^verbatim>\<open>Choice\<close> gives for
  \<^verbatim>\<open>Choice(question=.., choice_text=.., votes=..)\<close>: \<open>v\<close> is the value supplied for \<^verbatim>\<open>votes\<close>,
  if any; without one the field takes its declared default. An \<^verbatim>\<open>IntegerField\<close> takes any
  integer.
\<close>

definition Choice_new :: "nat \<Rightarrow> nat \<Rightarrow> str \<Rightarrow> int option \<Rightarrow> Choice" where
  "Choice_new pk qpk text v =
     \<lparr>choice_pk = pk, question = qpk, choice_text = text,
      votes = (case v of None \<Rightarrow> votes_default | Some n \<Rightarrow> n)\<rparr>"

text \<open>
  Modelled from the spec: the creation of a Choice (section 3: created referencing an
  existing Question). The text is stored as it is supplied; a counter that does not fit
  the integer column is refused before the row is written.
\<close>

definition create_Choice :: "nat \<Rightarrow> str \<Rightarrow> int option \<Rightarrow> store \<Rightarrow> error + Choice \<times> store" where
  "create_Choice qpk text v s =
     (let c = Choice_new (next_choice_pk s) qpk text v
      in if \<not> integer_column_ok (votes c) then Inl OverflowError
         else if qpk \<notin> set (question_pks s) then Inl IntegrityError
         else Inr (c, s\<lparr>choices := choices s @ [c],
                        next_choice_pk := Suc (next_choice_pk s)\<rparr>))"

text \<open>
  Modelled from the spec: the update of a stored Choice (its owner, its text, its
  counter); the new owner has to exist and the counter has to fit the integer column.
\<close>

definition update_Choice :: "nat \<Rightarrow> nat \<Rightarrow> str \<Rightarrow> int \<Rightarrow> store \<Rightarrow> error + store" where
  "update_Choice pk qpk text n s =
     (if pk \<notin> set (choice_pks s) then Inl NotFound
      else if \<not> integer_column_ok n then Inl OverflowError
      else if qpk \<notin> set (question_pks s) then Inl IntegrityError
      else Inr (s\<lparr>choices :=
                  map (\<lambda>c. if choice_pk c = pk
                           then c\<lparr>question := qpk, choice_text := text, votes := n\<rparr> else c)
                      (choices s)\<rparr>))"

text \<open>Modelled from the spec: the deletion of one Choice (section 3: deleted individually).\<close>

definition delete_Choice :: "nat \<Rightarrow> store \<Rightarrow> error + store" where
  "delete_Choice pk s =
     (if pk \<notin> set (choice_pks s) then Inl NotFound
      else Inr (s\<lparr>choices := filter (\<lambda>c. choice_pk c \<noteq> pk) (choices s)\<rparr>))"

text \<open>
  Modelled from the spec: the writing operations of section 6 as commands, and a history
  of commands run from a store. A command that fails leaves the store as it was.
\<close>

datatype command =
    Create_Question str datetime
  | Update_Question nat str datetime
  | Delete_Question nat
  | Create_Choice nat str "int option"
  | Update_Choice nat nat str int
  | Delete_Choice nat

fun exec :: "command \<Rightarrow> store \<Rightarrow> error + store" where
  "exec (Create_Question text time) s = map_sum (\<lambda>e. e) snd (create_Question text time s)"
| "exec (Update_Question pk text time) s = update_Question pk text time s"
| "exec (Delete_Question pk) s = delete_Question pk s"
| "exec (Create_Choice qpk text v) s = map_sum (\<lambda>e. e) snd (create_Choice qpk text v s)"
| "exec (Update_Choice pk qpk text n) s = update_Choice pk qpk text n s"
| "exec (Delete_Choice pk) s = delete_Choice pk s"

fun run :: "command list \<Rightarrow> store \<Rightarrow> store" where
  "run [] s = s"
| "run (c # cs) s = run cs (case exec c s of Inl e \<Rightarrow> s | Inr s' \<Rightarrow> s')"

text \<open>
  The text that a command supplies, if it supplies one, respects the \<^verbatim>\<open>max_length\<close> declared
  for its field.
\<close>

fun command_text_ok :: "command \<Rightarrow> bool" where
  "command_text_ok (Create_Question text time) \<longleftrightarrow> length text \<le> question_text_max_length"
| "command_text_ok (Update_Question pk text time) \<longleftrightarrow> length text \<le> question_text_max_length"
| "command_text_ok (Delete_Question pk) \<longleftrightarrow> True"
| "command_text_ok (Create_Choice qpk text v) \<longleftrightarrow> length text \<le> choice_text_max_length"
| "command_text_ok (Update_Choice pk qpk text n) \<longleftrightarrow> length text \<le> choice_text_max_length"
| "command_text_ok (Delete_Choice pk) \<longleftrightarrow> True"

text \<open>
  Modelled from the spec: the listing of section 4.2, which the index view of the
  repository (not among the source files) computes: the Questions published at or before
  \<open>now\<close>, most recent first.
\<close>

definition listing :: "datetime \<Rightarrow> Question list \<Rightarrow> Question list" where
  "listing now qs = sort_key (\<lambda>q. - pub_date q) (filter (\<lambda>q. pub_date q \<le> now) qs)"

text \<open>
  Modelled from the spec: the detail lookup of section 4.3, which the detail view of the
  repository (not among the source files) computes.
\<close>

definition detail :: "datetime \<Rightarrow> Question list \<Rightarrow> nat \<Rightarrow> error + Question" where
  "detail now qs pk =
     (case find (\<lambda>q. question_pk q = pk) qs of
        None \<Rightarrow> Inl NotFound
      | Some q \<Rightarrow> if pub_date q \<le> now then Inr q else Inl NotFound)"

section \<open>Invariants of the store\<close>

definition pks_ok :: "store \<Rightarrow> bool" where
  "pks_ok s \<longleftrightarrow>
     distinct (question_pks s) \<and> list_all (\<lambda>k. k < next_question_pk s) (question_pks s) \<and>
     distinct (choice_pks s) \<and> list_all (\<lambda>k. k < next_choice_pk s) (choice_pks s)"

definition refs_ok :: "store \<Rightarrow> bool" where
  "refs_ok s \<longleftrightarrow> list_all (\<lambda>c. question c \<in> set (question_pks s)) (choices s)"

definition texts_ok :: "store \<Rightarrow> bool" where
  "texts_ok s \<longleftrightarrow>
     list_all (\<lambda>q. length (question_text q) \<le> question_text_max_length) (questions s) \<and>
     list_all (\<lambda>c. length (choice_text c) \<le> choice_text_max_length) (choices s)"

definition store_ok :: "store \<Rightarrow> bool" where
  "store_ok s \<longleftrightarrow> pks_ok s \<and> refs_ok s"

section \<open>The publication window\<close>

text \<open>
  C1: for every instant \<open>now\<close> and every publication time, the predicate holds if and only if
  the publication time lies between \<open>now\<close> minus 24 hours and \<open>now\<close>, both ends included;
  a Question published exactly at \<open>now\<close> is in the window, one published at any later
  instant is not.
\<close>

theorem was_published_in_day_window:
  "(was_published_in_day now self \<longleftrightarrow>
      now - timedelta 0 24 0 0 \<le> pub_date self \<and> pub_date self \<le> now) \<and>
   was_published_in_day now (self\<lparr>pub_date := now\<rparr>) \<and>
   (\<forall>t. now < t \<longrightarrow> \<not> was_published_in_day now (self\<lparr>pub_date := t\<rparr>))"
  by (simp add: was_published_in_day_def timedelta_def)

text \<open>
  The instants of \<^verbatim>\<open>test_was_published_in_day_with_less_than_day_old_question\<close> and of
  \<^verbatim>\<open>test_was_published_in_day_with_future_question\<close>: 23 hours 59 minutes 59 seconds before
  \<open>now\<close>, \<open>now\<close> itself, and one second after \<open>now\<close>.
\<close>

theorem was_published_in_day_window_witness:
  "was_published_in_day 1762290000000000
     \<lparr>question_pk = 1, question_text = [], pub_date = 1762290000000000 - timedelta 0 23 59 59\<rparr> \<and>
   was_published_in_day 1762290000000000
     \<lparr>question_pk = 1, question_text = [], pub_date = 1762290000000000\<rparr> \<and>
   (1762290000000000 :: int) < 1762290000000000 + timedelta 0 0 0 1 \<and>
   \<not> was_published_in_day 1762290000000000
     \<lparr>question_pk = 1, question_text = [], pub_date = 1762290000000000 + timedelta 0 0 0 1\<rparr>"
proof -
  let ?now = "1762290000000000 :: int"
  let ?q = "\<lambda>t. \<lparr>question_pk = 1, question_text = [], pub_date = t\<rparr>"
  have later: "?now < ?now + timedelta 0 0 0 1"
    by (simp add: timedelta_def)
  have "was_published_in_day ?now (?q (?now - timedelta 0 23 59 59))"
    using was_published_in_day_window [of ?now "?q (?now - timedelta 0 23 59 59)"]
    by (simp add: timedelta_def)
  moreover have "was_published_in_day ?now (?q ?now)"
    using was_published_in_day_window [of ?now "?q ?now"] by (simp add: timedelta_def)
  moreover have "\<not> was_published_in_day ?now (?q (?now + timedelta 0 0 0 1))"
    using was_published_in_day_window [of ?now "?q ?now"] later by simp
  ultimately show ?thesis using later by simp
qed

text \<open>
  C4: the lower end of the window is included: a Question published exactly 24 hours
  before \<open>now\<close> is in the window, one published 24 hours and one second before \<open>now\<close> is not.
\<close>

theorem was_published_in_day_lower_boundary:
  "was_published_in_day now (self\<lparr>pub_date := now - timedelta 0 24 0 0\<rparr>) \<and>
   \<not> was_published_in_day now (self\<lparr>pub_date := now - timedelta 0 24 0 1\<rparr>)"
  by (simp add: was_published_in_day_def timedelta_def)

text \<open>
  C8: the call of the predicate changes nothing: the receiver (its text and its
  publication time) and the world come back as they were, and the result is a function
  of the reading of the clock and of the publication time alone.
\<close>

theorem was_published_in_day_pure:
  "snd (was_published_in_day_call self w) = (self, w) \<and>
   (\<exists>f. \<forall>q v. fst (was_published_in_day_call q v) = f (clock v) (pub_date q))"
proof
  show "snd (was_published_in_day_call self w) = (self, w)"
    by (simp add: was_published_in_day_call_def timezone_now_def)
  show "\<exists>f. \<forall>q v. fst (was_published_in_day_call q v) = f (clock v) (pub_date q)"
    by (rule exI [of _ "\<lambda>now t. now - timedelta 1 0 0 0 \<le> t \<and> t \<le> now"])
       (simp add: was_published_in_day_call_def timezone_now_def)
qed

text \<open>
  C9: the predicate is invariant under translation in time: moving both \<open>now\<close> and the
  publication time by the same duration \<open>d\<close> leaves the result as it was; the result is a
  function of the difference between \<open>now\<close> and the publication time.
\<close>

theorem was_published_in_day_translation:
  "was_published_in_day (now + d) (self\<lparr>pub_date := t + d\<rparr>) =
     was_published_in_day now (self\<lparr>pub_date := t\<rparr>) \<and>
   was_published_in_day now self =
     (0 \<le> now - pub_date self \<and> now - pub_date self \<le> timedelta 1 0 0 0)"
  by (auto simp add: was_published_in_day_def)

text \<open>
  The three tests of \<^verbatim>\<open>QuestionModelTests\<close>. Each builds its Question from a first reading
  \<open>now\<close> of the clock and calls the method at a later reading \<open>now'\<close>; the two tests that
  expect a Question just inside, or just after, the window hold when less than a second
  passes between the two readings.
\<close>

lemma test_was_published_in_day_with_more_than_day_old_question:
  assumes "now \<le> now'"
  shows "\<not> was_published_in_day now' (self\<lparr>pub_date := now - timedelta 1 0 0 1\<rparr>)"
    and "\<not> was_published_in_day now' (self\<lparr>pub_date := now - timedelta 30 0 0 0\<rparr>)"
  using assms by (simp_all add: was_published_in_day_def timedelta_def)

lemma test_was_published_in_day_with_less_than_day_old_question:
  assumes "now \<le> now'" "now' < now + timedelta 0 0 0 1"
  shows "was_published_in_day now' (self\<lparr>pub_date := now - timedelta 0 23 59 59\<rparr>)"
    and "was_published_in_day now' (self\<lparr>pub_date := now\<rparr>)"
  using assms by (simp_all add: was_published_in_day_def timedelta_def)

lemma test_was_published_in_day_with_future_question:
  assumes "now \<le> now'" "now' < now + timedelta 0 0 0 1"
  shows "\<not> was_published_in_day now' (self\<lparr>pub_date := now + timedelta 1 0 0 1\<rparr>)"
    and "\<not> was_published_in_day now' (self\<lparr>pub_date := now + timedelta 0 0 0 1\<rparr>)"
  using assms by (simp_all add: was_published_in_day_def timedelta_def)

section \<open>Listing and detail lookup\<close>

lemma set_listing: "set (listing now qs) = {q \<in> set qs. pub_date q \<le> now}"
  by (auto simp add: listing_def)

lemma find_pk:
  assumes "distinct (map question_pk qs)"
  shows "find (\<lambda>q. question_pk q = pk) qs = Some q \<longleftrightarrow> q \<in> set qs \<and> question_pk q = pk"
  using assms by (induction qs) force+

lemma detail_Inr_iff:
  assumes "distinct (map question_pk qs)"
  shows "detail now qs pk = Inr q \<longleftrightarrow> q \<in> set qs \<and> question_pk q = pk \<and> pub_date q \<le> now"
proof (cases "find (\<lambda>q. question_pk q = pk) qs")
  case None
  with find_pk [OF assms, of pk q] show ?thesis
    by (auto simp add: detail_def)
next
  case (Some r)
  with find_pk [OF assms, of pk q] show ?thesis
    by (auto simp add: detail_def)
qed

lemma detail_error: "detail now qs pk = Inl e \<Longrightarrow> e = NotFound"
  by (auto simp add: detail_def split: option.splits if_splits)

text \<open>
  The tests of \<^verbatim>\<open>QuestionIndexViewTests\<close> and \<^verbatim>\<open>QuestionDetailViewTests\<close> on the model: the
  Questions are made by \<^verbatim>\<open>create_question\<close> at the readings \<open>now1\<close>, \<open>now2\<close> of the clock, and
  the view runs at a later reading, which is still before the publication time of a
  Question made for the future.
\<close>

lemma test_future_question_and_past_question:
  assumes "now1 \<le> now2" "now2 \<le> now3" "now3 < now2 + timedelta 30 0 0 0"
    and "create_question now1 text1 (- 30) empty_store = Inr (past, s1)"
    and "create_question now2 text2 30 s1 = Inr (future, s2)"
  shows "listing now3 (questions s2) = [past]"
  using assms
  by (auto simp add: create_question_def create_Question_def empty_store_def listing_def
      timedelta_def Let_def split: if_splits)

lemma test_two_past_questions:
  assumes "now1 \<le> now2" "now2 \<le> now3"
    and "create_question now1 text1 (- 30) empty_store = Inr (question1, s1)"
    and "create_question now2 text2 (- 5) s1 = Inr (question2, s2)"
  shows "listing now3 (questions s2) = [question2, question1]"
  using assms
  by (auto simp add: create_question_def create_Question_def empty_store_def listing_def
      timedelta_def Let_def split: if_splits)

lemma test_detail_future_question:
  assumes "now' < now + timedelta 5 0 0 0"
    and "create_question now text 5 empty_store = Inr (future_question, s)"
  shows "detail now' (questions s) (question_pk future_question) = Inl NotFound"
  using assms
  by (auto simp add: create_question_def create_Question_def empty_store_def detail_def
      timedelta_def Let_def split: if_splits)

lemma test_detail_past_question:
  assumes "now \<le> now'" "create_question now text (- 5) empty_store = Inr (past_question, s)"
  shows "detail now' (questions s) (question_pk past_question) = Inr past_question"
  using assms
  by (auto simp add: create_question_def create_Question_def empty_store_def detail_def
      timedelta_def Let_def split: if_splits)

text \<open>
  C2: the listing holds exactly the Questions published at or before \<open>now\<close> (each as often
  as the table holds it), with the most recent first; no Question with a later publication
  time is in it; the listing of no Questions is empty.
\<close>

theorem listing_published_desc:
  "mset (listing now qs) = filter_mset (\<lambda>q. pub_date q \<le> now) (mset qs) \<and>
   set (listing now qs) = {q \<in> set qs. pub_date q \<le> now} \<and>
   sorted_wrt (\<lambda>a b. pub_date b \<le> pub_date a) (listing now qs) \<and>
   filter (\<lambda>q. now < pub_date q) (listing now qs) = [] \<and>
   listing now [] = []"
proof -
  have "sorted (map (\<lambda>q. - pub_date q) (listing now qs))"
    unfolding listing_def by (rule sorted_sort_key)
  then have "sorted_wrt (\<lambda>a b. pub_date b \<le> pub_date a) (listing now qs)"
    by (simp add: sorted_map)
  moreover have "mset (listing now qs) = filter_mset (\<lambda>q. pub_date q \<le> now) (mset qs)"
    by (simp add: listing_def)
  moreover have "filter (\<lambda>q. now < pub_date q) (listing now qs) = []"
    by (auto simp add: set_listing filter_empty_conv)
  moreover have "listing now [] = []"
    by (simp add: listing_def)
  ultimately show ?thesis
    by (simp add: set_listing)
qed

text \<open>
  C3: in a table whose primary keys are distinct, the detail lookup returns a Question if
  and only if this Question is in the table under the given key and is published at or
  before \<open>now\<close>; in every other case, also when the key is that of a Question with a later
  publication time, it signals not-found, and it signals no other error.
\<close>

theorem detail_lookup:
  assumes "distinct (map question_pk qs)"
  shows "(detail now qs pk = Inr q \<longleftrightarrow>
            q \<in> set qs \<and> question_pk q = pk \<and> pub_date q \<le> now) \<and>
         (detail now qs pk = Inl NotFound \<longleftrightarrow>
            \<not> (\<exists>r. r \<in> set qs \<and> question_pk r = pk \<and> pub_date r \<le> now)) \<and>
         (\<forall>e. detail now qs pk = Inl e \<longrightarrow> e = NotFound)"
proof -
  have err: "e = NotFound" if "detail now qs pk = Inl e" for e
    using that by (rule detail_error)
  have "detail now qs pk = Inl NotFound \<longleftrightarrow> (\<forall>r. detail now qs pk \<noteq> Inr r)"
  proof (cases "detail now qs pk")
    case (Inl e)
    with err show ?thesis by simp
  next
    case (Inr r)
    then show ?thesis by simp
  qed
  with assms err show ?thesis
    by (simp add: detail_Inr_iff)
qed

theorem detail_lookup_witness:
  "distinct (map question_pk
     [\<lparr>question_pk = 1, question_text = str_of ''Future question.'',
        pub_date = 1762290000000000 + timedelta 5 0 0 0\<rparr>,
      \<lparr>question_pk = 2, question_text = str_of ''Past Question.'',
        pub_date = 1762290000000000 + timedelta (- 5) 0 0 0\<rparr>]) \<and>
   detail 1762290000000000
     [\<lparr>question_pk = 1, question_text = str_of ''Future question.'',
        pub_date = 1762290000000000 + timedelta 5 0 0 0\<rparr>,
      \<lparr>question_pk = 2, question_text = str_of ''Past Question.'',
        pub_date = 1762290000000000 + timedelta (- 5) 0 0 0\<rparr>] 2 =
     Inr \<lparr>question_pk = 2, question_text = str_of ''Past Question.'',
        pub_date = 1762290000000000 + timedelta (- 5) 0 0 0\<rparr> \<and>
   detail 1762290000000000
     [\<lparr>question_pk = 1, question_text = str_of ''Future question.'',
        pub_date = 1762290000000000 + timedelta 5 0 0 0\<rparr>,
      \<lparr>question_pk = 2, question_text = str_of ''Past Question.'',
        pub_date = 1762290000000000 + timedelta (- 5) 0 0 0\<rparr>] 1 = Inl NotFound"
proof -
  let ?now = "1762290000000000 :: int"
  let ?future = "\<lparr>question_pk = 1, question_text = str_of ''Future question.'',
        pub_date = ?now + timedelta 5 0 0 0\<rparr>"
  let ?past = "\<lparr>question_pk = 2, question_text = str_of ''Past Question.'',
        pub_date = ?now + timedelta (- 5) 0 0 0\<rparr>"
  have d: "distinct (map question_pk [?future, ?past])"
    by simp
  have "detail ?now [?future, ?past] 2 = Inr ?past"
    using detail_lookup [OF d, of ?now 2 ?past] by (simp add: timedelta_def)
  moreover have "detail ?now [?future, ?past] 1 = Inl NotFound"
    using detail_lookup [OF d, of ?now 1 ?past] by (auto simp add: timedelta_def)
  ultimately show ?thesis
    using d by simp
qed

text \<open>
  C10: a Question inside the publication window at \<open>now\<close> is published at or before \<open>now\<close>; so
  if it is in the table it is in the listing, and the detail lookup by its key returns it.
\<close>

theorem window_implies_visible:
  assumes "was_published_in_day now q"
  shows "pub_date q \<le> now \<and>
         (q \<in> set qs \<longrightarrow> q \<in> set (listing now qs)) \<and>
         (q \<in> set qs \<and> distinct (map question_pk qs) \<longrightarrow>
            detail now qs (question_pk q) = Inr q)"
proof -
  from assms have "pub_date q \<le> now"
    by (simp add: was_published_in_day_def)
  then show ?thesis
    by (simp add: set_listing detail_Inr_iff)
qed

theorem window_implies_visible_witness:
  "was_published_in_day 1762290000000000
     \<lparr>question_pk = 2, question_text = str_of ''Recent question.'',
        pub_date = 1762290000000000 - timedelta 0 1 0 0\<rparr> \<and>
   \<lparr>question_pk = 2, question_text = str_of ''Recent question.'',
        pub_date = 1762290000000000 - timedelta 0 1 0 0\<rparr>
     \<in> set (listing 1762290000000000
        [\<lparr>question_pk = 1, question_text = str_of ''Future question.'',
           pub_date = 1762290000000000 + timedelta 30 0 0 0\<rparr>,
         \<lparr>question_pk = 2, question_text = str_of ''Recent question.'',
           pub_date = 1762290000000000 - timedelta 0 1 0 0\<rparr>]) \<and>
   detail 1762290000000000
        [\<lparr>question_pk = 1, question_text = str_of ''Future question.'',
           pub_date = 1762290000000000 + timedelta 30 0 0 0\<rparr>,
         \<lparr>question_pk = 2, question_text = str_of ''Recent question.'',
           pub_date = 1762290000000000 - timedelta 0 1 0 0\<rparr>] 2 =
     Inr \<lparr>question_pk = 2, question_text = str_of ''Recent question.'',
        pub_date = 1762290000000000 - timedelta 0 1 0 0\<rparr>"
proof -
  let ?now = "1762290000000000 :: int"
  let ?future = "\<lparr>question_pk = 1, question_text = str_of ''Future question.'',
        pub_date = ?now + timedelta 30 0 0 0\<rparr>"
  let ?recent = "\<lparr>question_pk = 2, question_text = str_of ''Recent question.'',
        pub_date = ?now - timedelta 0 1 0 0\<rparr>"
  have w: "was_published_in_day ?now ?recent"
    by (simp add: was_published_in_day_def timedelta_def)
  have "?recent \<in> set (listing ?now [?future, ?recent])"
    using window_implies_visible [OF w, of "[?future, ?recent]"] by simp
  moreover have "detail ?now [?future, ?recent] 2 = Inr ?recent"
    using window_implies_visible [OF w, of "[?future, ?recent]"] by simp
  ultimately show ?thesis
    using w by simp
qed

section \<open>The store keeps its invariants\<close>

text \<open>
  Every command that succeeds takes a store with distinct primary keys and owned Choices
  to another such store; so every store reached from the empty one by a history of
  commands is such a store.
\<close>

lemma store_ok_empty: "store_ok empty_store"
  by (simp add: store_ok_def pks_ok_def refs_ok_def empty_store_def
      question_pks_def choice_pks_def)

lemma fresh_distinct:
  assumes "distinct ks" "list_all (\<lambda>k. k < n) ks"
  shows "distinct (ks @ [n])" "list_all (\<lambda>k. k < Suc n) (ks @ [n])"
  using assms by (auto simp add: list_all_iff)

lemma create_Question_ok:
  assumes "store_ok s" "create_Question text time s = Inr (q, s')"
  shows "store_ok s'"
proof -
  from assms(2)
  have q: "q = \<lparr>question_pk = next_question_pk s, question_text = text, pub_date = time\<rparr>"
    and s': "s' = s\<lparr>questions := questions s @ [q],
                     next_question_pk := Suc (next_question_pk s)\<rparr>"
    by (auto simp add: create_Question_def Let_def)
  have pks: "question_pks s' = question_pks s @ [next_question_pk s]"
    by (simp add: s' q question_pks_def)
  from assms(1) have "distinct (question_pks s)"
    and "list_all (\<lambda>k. k < next_question_pk s) (question_pks s)"
    by (simp_all add: store_ok_def pks_ok_def)
  from fresh_distinct [OF this] assms(1) have "pks_ok s'"
    by (simp add: store_ok_def pks_ok_def pks) (simp add: s' choice_pks_def)
  moreover from assms(1) have "refs_ok s'"
    by (simp add: store_ok_def refs_ok_def pks list_all_iff) (simp add: s')
  ultimately show ?thesis by (simp add: store_ok_def)
qed

lemma update_Question_ok:
  assumes "store_ok s" "update_Question pk text time s = Inr s'"
  shows "store_ok s'"
proof -
  define f where "f = (\<lambda>q::Question. if question_pk q = pk
                           then q\<lparr>question_text := text, pub_date := time\<rparr> else q)"
  from assms(2) have s': "s' = s\<lparr>questions := map f (questions s)\<rparr>"
    by (auto simp add: update_Question_def f_def split: if_splits)
  have "map (\<lambda>q. question_pk (f q)) (questions s) = map question_pk (questions s)"
    by (rule map_cong) (auto simp add: f_def)
  then have pks: "question_pks s' = question_pks s"
    by (simp add: s' question_pks_def comp_def)
  with assms(1) show ?thesis
    by (simp add: store_ok_def pks_ok_def refs_ok_def s' choice_pks_def)
qed

lemma delete_Question_ok:
  assumes "store_ok s" "delete_Question pk s = Inr s'"
  shows "store_ok s'"
proof -
  from assms(2) have s': "s' = s\<lparr>questions := filter (\<lambda>q. question_pk q \<noteq> pk) (questions s),
                  choices := filter (\<lambda>c. question c \<noteq> pk) (choices s)\<rparr>"
    by (auto simp add: delete_Question_def split: if_splits)
  from assms(1) have "pks_ok s'"
    by (simp add: store_ok_def pks_ok_def s' question_pks_def choice_pks_def
        distinct_map_filter list_all_iff)
  moreover from assms(1) have "refs_ok s'"
    by (auto simp add: store_ok_def refs_ok_def s' question_pks_def list_all_iff)
  ultimately show ?thesis by (simp add: store_ok_def)
qed

lemma create_Choice_ok:
  assumes "store_ok s" "create_Choice qpk text v s = Inr (c, s')"
  shows "store_ok s'"
proof -
  from assms(2) have own: "qpk \<in> set (question_pks s)"
    and c: "c = Choice_new (next_choice_pk s) qpk text v"
    and s': "s' = s\<lparr>choices := choices s @ [c],
                     next_choice_pk := Suc (next_choice_pk s)\<rparr>"
    by (auto simp add: create_Choice_def Let_def split: if_splits)
  have pks: "choice_pks s' = choice_pks s @ [next_choice_pk s]"
    by (simp add: s' c choice_pks_def Choice_new_def)
  have qpks: "question_pks s' = question_pks s"
    by (simp add: s' question_pks_def)
  from assms(1) have "distinct (choice_pks s)"
    and "list_all (\<lambda>k. k < next_choice_pk s) (choice_pks s)"
    by (simp_all add: store_ok_def pks_ok_def)
  from fresh_distinct [OF this] assms(1) have "pks_ok s'"
    by (simp add: store_ok_def pks_ok_def pks qpks) (simp add: s')
  moreover from assms(1) own have "refs_ok s'"
    by (simp add: store_ok_def refs_ok_def qpks) (simp add: s' c Choice_new_def)
  ultimately show ?thesis by (simp add: store_ok_def)
qed

lemma update_Choice_ok:
  assumes "store_ok s" "update_Choice pk qpk text n s = Inr s'"
  shows "store_ok s'"
proof -
  define f where "f = (\<lambda>c::Choice. if choice_pk c = pk
                           then c\<lparr>question := qpk, choice_text := text, votes := n\<rparr> else c)"
  from assms(2) have s': "s' = s\<lparr>choices := map f (choices s)\<rparr>"
    and own: "qpk \<in> set (question_pks s)"
    by (auto simp add: update_Choice_def f_def split: if_splits)
  have "map (\<lambda>c. choice_pk (f c)) (choices s) = map choice_pk (choices s)"
    by (rule map_cong) (auto simp add: f_def)
  then have pks: "choice_pks s' = choice_pks s"
    by (simp add: s' choice_pks_def comp_def)
  have refs: "list_all (\<lambda>c. question c \<in> set (question_pks s)) (map f (choices s))"
    using assms(1) own by (auto simp add: store_ok_def refs_ok_def list_all_iff f_def)
  from assms(1) pks refs show ?thesis
    by (simp add: store_ok_def pks_ok_def refs_ok_def s' question_pks_def)
qed

lemma delete_Choice_ok:
  assumes "store_ok s" "delete_Choice pk s = Inr s'"
  shows "store_ok s'"
proof -
  from assms(2) have s': "s' = s\<lparr>choices := filter (\<lambda>c. choice_pk c \<noteq> pk) (choices s)\<rparr>"
    by (auto simp add: delete_Choice_def split: if_splits)
  from assms(1) show ?thesis
    by (simp add: store_ok_def pks_ok_def refs_ok_def s' question_pks_def
        choice_pks_def distinct_map_filter list_all_iff)
qed

lemma exec_ok:
  assumes "store_ok s" "exec c s = Inr s'"
  shows "store_ok s'"
proof (cases c)
  case (Create_Question x time)
  with assms(2) obtain q where "create_Question x time s = Inr (q, s')"
    by (cases "create_Question x time s") auto
  with assms(1) show ?thesis by (rule create_Question_ok)
next
  case (Create_Choice qpk x v)
  with assms(2) obtain ch where "create_Choice qpk x v s = Inr (ch, s')"
    by (cases "create_Choice qpk x v s") auto
  with assms(1) show ?thesis by (rule create_Choice_ok)
next
  case (Update_Question pk x time)
  with assms(2) have "update_Question pk x time s = Inr s'" by simp
  with assms(1) show ?thesis by (rule update_Question_ok)
next
  case (Delete_Question pk)
  with assms(2) have "delete_Question pk s = Inr s'" by simp
  with assms(1) show ?thesis by (rule delete_Question_ok)
next
  case (Update_Choice pk qpk x n)
  with assms(2) have "update_Choice pk qpk x n s = Inr s'" by simp
  with assms(1) show ?thesis by (rule update_Choice_ok)
next
  case (Delete_Choice pk)
  with assms(2) have "delete_Choice pk s = Inr s'" by simp
  with assms(1) show ?thesis by (rule delete_Choice_ok)
qed

lemma run_ok: "store_ok s \<Longrightarrow> store_ok (run cs s)"
proof (induction cs arbitrary: s)
  case Nil
  then show ?case by simp
next
  case (Cons c cs)
  show ?case
  proof (cases "exec c s")
    case (Inl e)
    with Cons show ?thesis by simp
  next
    case (Inr s')
    with Cons.prems have "store_ok s'" by (rule exec_ok)
    with Cons.IH Inr show ?thesis by simp
  qed
qed

lemma unique_owner:
  assumes "store_ok s" "c \<in> set (choices s)"
  shows "\<exists>!q. q \<in> set (questions s) \<and> question_pk q = question c"
proof -
  from assms obtain q where q: "q \<in> set (questions s)" "question_pk q = question c"
    by (auto simp add: store_ok_def refs_ok_def list_all_iff question_pks_def)
  from assms(1) have inj: "inj_on question_pk (set (questions s))"
    by (simp add: store_ok_def pks_ok_def question_pks_def distinct_map)
  show ?thesis
  proof (rule ex1I [of _ q])
    show "q \<in> set (questions s) \<and> question_pk q = question c" using q by simp
  next
    fix r assume "r \<in> set (questions s) \<and> question_pk r = question c"
    with q inj show "r = q" by (simp add: inj_on_def)
  qed
qed

text \<open>
  The store keeps a text as the command supplies it. So the texts stay within the declared
  \<^verbatim>\<open>max_length\<close> as long as the commands supply texts within it.
\<close>

lemma exec_texts_ok:
  assumes "texts_ok s" "command_text_ok c" "exec c s = Inr s'"
  shows "texts_ok s'"
proof (cases c)
  case (Create_Question x time)
  with assms show ?thesis
    by (auto simp add: texts_ok_def create_Question_def Let_def)
next
  case (Update_Question pk x time)
  with assms show ?thesis
    by (auto simp add: texts_ok_def update_Question_def list_all_iff split: if_splits)
next
  case (Delete_Question pk)
  with assms show ?thesis
    by (auto simp add: texts_ok_def delete_Question_def list_all_iff split: if_splits)
next
  case (Create_Choice qpk x v)
  with assms show ?thesis
    by (auto simp add: texts_ok_def create_Choice_def Choice_new_def Let_def split: if_splits)
next
  case (Update_Choice pk qpk x n)
  with assms show ?thesis
    by (auto simp add: texts_ok_def update_Choice_def list_all_iff split: if_splits)
next
  case (Delete_Choice pk)
  with assms show ?thesis
    by (auto simp add: texts_ok_def delete_Choice_def list_all_iff split: if_splits)
qed

lemma run_texts_ok: "texts_ok s \<Longrightarrow> list_all command_text_ok cs \<Longrightarrow> texts_ok (run cs s)"
proof (induction cs arbitrary: s)
  case Nil
  then show ?case by simp
next
  case (Cons c cs)
  show ?case
  proof (cases "exec c s")
    case (Inl e)
    with Cons show ?thesis by simp
  next
    case (Inr s')
    from Cons.prems have "texts_ok s" and "command_text_ok c" by simp_all
    from this Inr have "texts_ok s'" by (rule exec_texts_ok)
    with Cons.IH Cons.prems Inr show ?thesis by simp
  qed
qed

lemmas store_defs =
  create_Question_def create_Choice_def Choice_new_def empty_store_def question_pks_def
  choice_pks_def question_text_max_length_def choice_text_max_length_def votes_default_def
  delete_Question_def integer_column_ok_def Let_def

text \<open>
  C5: the deletion of a Question removes exactly the Choices that refer to it, so no
  Choice that refers to the deleted Question remains, and the Question itself is gone;
  in every store reached from the empty one, every Choice refers to exactly one stored
  Question.
\<close>

theorem delete_Question_cascade:
  "(delete_Question pk s = Inr s' \<longrightarrow>
      choices s' = filter (\<lambda>c. question c \<noteq> pk) (choices s) \<and>
      filter (\<lambda>c. question c = pk) (choices s') = [] \<and>
      pk \<notin> set (question_pks s')) \<and>
   (\<forall>c \<in> set (choices (run cs empty_store)).
      \<exists>!q. q \<in> set (questions (run cs empty_store)) \<and> question_pk q = question c)"
proof -
  have "store_ok (run cs empty_store)"
    using store_ok_empty by (rule run_ok)
  then have "\<forall>c \<in> set (choices (run cs empty_store)).
      \<exists>!q. q \<in> set (questions (run cs empty_store)) \<and> question_pk q = question c"
    by (intro ballI unique_owner)
  moreover have "delete_Question pk s = Inr s' \<longrightarrow>
      choices s' = filter (\<lambda>c. question c \<noteq> pk) (choices s) \<and>
      filter (\<lambda>c. question c = pk) (choices s') = [] \<and>
      pk \<notin> set (question_pks s')"
    by (auto simp add: delete_Question_def question_pks_def filter_empty_conv split: if_splits)
  ultimately show ?thesis by simp
qed

theorem delete_Question_cascade_witness:
  "delete_Question 1
     (run [Create_Question (str_of ''Tea?'') 0, Create_Choice 1 (str_of ''Yes'') None,
           Create_Question (str_of ''Milk?'') 0, Create_Choice 2 (str_of ''No'') None]
        empty_store) =
     Inr \<lparr>questions = [\<lparr>question_pk = 2, question_text = str_of ''Milk?'', pub_date = 0\<rparr>],
          choices = [\<lparr>choice_pk = 2, question = 2, choice_text = str_of ''No'', votes = 0\<rparr>],
          next_question_pk = 3, next_choice_pk = 3\<rparr> \<and>
   \<lparr>choice_pk = 1, question = 1, choice_text = str_of ''Yes'', votes = 0\<rparr>
     \<in> set (choices
         (run [Create_Question (str_of ''Tea?'') 0, Create_Choice 1 (str_of ''Yes'') None,
               Create_Question (str_of ''Milk?'') 0, Create_Choice 2 (str_of ''No'') None]
            empty_store)) \<and>
   (\<exists>!q. q \<in> set (questions
         (run [Create_Question (str_of ''Tea?'') 0, Create_Choice 1 (str_of ''Yes'') None,
               Create_Question (str_of ''Milk?'') 0, Create_Choice 2 (str_of ''No'') None]
            empty_store)) \<and>
       question_pk q = 1)"
proof -
  let ?cs = "[Create_Question (str_of ''Tea?'') 0, Create_Choice 1 (str_of ''Yes'') None,
              Create_Question (str_of ''Milk?'') 0, Create_Choice 2 (str_of ''No'') None]"
  let ?c = "\<lparr>choice_pk = 1, question = 1, choice_text = str_of ''Yes'', votes = 0\<rparr>"
  let ?s = "run ?cs empty_store"
  let ?s' = "\<lparr>questions = [\<lparr>question_pk = 2, question_text = str_of ''Milk?'', pub_date = 0\<rparr>],
          choices = [\<lparr>choice_pk = 2, question = 2, choice_text = str_of ''No'', votes = 0\<rparr>],
          next_question_pk = 3, next_choice_pk = 3\<rparr>"
  have del: "delete_Question 1 ?s = Inr ?s'"
    by (simp add: store_defs str_of_def)
  have mem: "?c \<in> set (choices ?s)"
    by (simp add: store_defs str_of_def)
  from delete_Question_cascade [of 1 ?s ?s' ?cs]
  have "\<forall>c \<in> set (choices ?s). \<exists>!q. q \<in> set (questions ?s) \<and> question_pk q = question c"
    by (rule conjunct2)
  from bspec [OF this mem] have "\<exists>!q. q \<in> set (questions ?s) \<and> question_pk q = 1"
    by simp
  with del mem show ?thesis
    by simp
qed

text \<open>
  The declared \<^verbatim>\<open>max_length=200\<close> is not a bound on what is stored: the creation of a Question
  with a text of 201 characters succeeds, and the table then holds this text.
\<close>

theorem stored_text_over_max_length_counterexample:
  "questions (run [Create_Question (replicate 201 63) 0] empty_store) =
     [\<lparr>question_pk = 1, question_text = replicate 201 63, pub_date = 0\<rparr>] \<and>
   \<not> length (question_text \<lparr>question_pk = 1, question_text = replicate 201 63, pub_date = 0\<rparr>)
       \<le> 200"
  by (simp add: store_defs)

text \<open>
  C7, as amended: in every store reached from the empty one by commands whose texts have
  at most 200 characters (the declared \<^verbatim>\<open>max_length\<close> of both fields), the text of every
  Question and of every Choice has at most 200 characters.
\<close>

theorem stored_texts_bounded_if_supplied:
  assumes "list_all command_text_ok cs"
  shows "(\<forall>q \<in> set (questions (run cs empty_store)). length (question_text q) \<le> 200) \<and>
         (\<forall>c \<in> set (choices (run cs empty_store)). length (choice_text c) \<le> 200)"
proof -
  have "texts_ok empty_store"
    by (simp add: texts_ok_def empty_store_def)
  from this assms have "texts_ok (run cs empty_store)"
    by (rule run_texts_ok)
  then show ?thesis
    by (simp add: texts_ok_def list_all_iff question_text_max_length_def
        choice_text_max_length_def)
qed

theorem stored_texts_bounded_if_supplied_witness:
  "list_all command_text_ok
     [Create_Question (str_of ''Tea?'') 0, Create_Choice 1 (str_of ''Yes'') None] \<and>
   \<lparr>question_pk = 1, question_text = str_of ''Tea?'', pub_date = 0\<rparr>
     \<in> set (questions
         (run [Create_Question (str_of ''Tea?'') 0, Create_Choice 1 (str_of ''Yes'') None]
            empty_store)) \<and>
   length (question_text \<lparr>question_pk = 1, question_text = str_of ''Tea?'', pub_date = 0\<rparr>)
     \<le> 200 \<and>
   \<lparr>choice_pk = 1, question = 1, choice_text = str_of ''Yes'', votes = 0\<rparr>
     \<in> set (choices
         (run [Create_Question (str_of ''Tea?'') 0, Create_Choice 1 (str_of ''Yes'') None]
            empty_store)) \<and>
   length (choice_text \<lparr>choice_pk = 1, question = 1, choice_text = str_of ''Yes'', votes = 0\<rparr>)
     \<le> 200"
proof -
  let ?cs = "[Create_Question (str_of ''Tea?'') 0, Create_Choice 1 (str_of ''Yes'') None]"
  let ?q = "\<lparr>question_pk = 1, question_text = str_of ''Tea?'', pub_date = 0\<rparr>"
  let ?c = "\<lparr>choice_pk = 1, question = 1, choice_text = str_of ''Yes'', votes = 0\<rparr>"
  let ?s = "run ?cs empty_store"
  have ok: "list_all command_text_ok ?cs"
    by (simp add: question_text_max_length_def choice_text_max_length_def str_of_def)
  have q: "?q \<in> set (questions ?s)"
    by (simp add: store_defs str_of_def)
  have c: "?c \<in> set (choices ?s)"
    by (simp add: store_defs str_of_def)
  from stored_texts_bounded_if_supplied [OF ok]
  have "\<forall>q \<in> set (questions ?s). length (question_text q) \<le> 200"
    and "\<forall>c \<in> set (choices ?s). length (choice_text c) \<le> 200"
    by (rule conjunct1, rule conjunct2)
  from ok bspec [OF this(1) q] bspec [OF this(2) c] q c show ?thesis
    by (intro conjI)
qed

section \<open>The vote counter\<close>

text \<open>
  The field \<^verbatim>\<open>votes\<close> is an \<^verbatim>\<open>IntegerField\<close>, not a field of non-negative integers: a Choice
  made with a negative value for it has a negative counter, and the store takes it.
\<close>

theorem votes_negative_counterexample:
  "votes (Choice_new 1 1 (str_of ''Not much'') (Some (- 1))) < 0 \<and>
   choices (run [Create_Question (str_of ''What is up?'') 0,
                 Create_Choice 1 (str_of ''Not much'') (Some (- 1))] empty_store) =
     [Choice_new 1 1 (str_of ''Not much'') (Some (- 1))]"
  by (simp add: store_defs str_of_def)

text \<open>
  C6, as amended: the counter of a Choice is an integer; a Choice made without a value for
  it has the counter 0, and a Choice made with a value has this value, whatever its sign.
\<close>

theorem votes_default_zero:
  "votes (Choice_new pk qpk text None) = 0 \<and> votes (Choice_new pk qpk text (Some n)) = n"
  by (simp add: Choice_new_def votes_default_def)

end
